theory Spec2Isabelle
  imports Complex_Main "HOL-Library.Word" "HOL-Library.Sublist"
begin

section \<open>Python values used by proxy.py\<close>

text \<open>
  Exceptions are values. \<open>ExternalError\<close> stands for any exception raised inside an
  external collaborator (aiortc, the GenAI client); the other constructors are the
  built-in exceptions the statements of proxy.py themselves can raise.
\<close>

datatype py_error =
    AttributeError
  | IndexError
  | ValueError
  | ZeroDivisionError
  | OverflowError
  | ExternalError

text \<open>How a statement sequence ends: it falls through, or an exception propagates.\<close>

datatype outcome = Normal | Raised py_error

type_synonym byte = "8 word"

subsection \<open>Floats\<close>

text \<open>
  \<open>AUDIO_PTIME = 0.02\<close>. Python floats are modelled by exact rationals. The products
  \<open>sample_rate * AUDIO_PTIME\<close>, the sums \<open>timestamp += ...\<close> and the quotient
  \<open>len(buffer) / 2\<close> of the source are IEEE doubles. For a rate below \<open>2^53\<close> that is
  a multiple of 50 the double product is the whole number \<open>rate / 50\<close> (the error of
  the double \<open>0.02\<close> is below half a unit in the last place), and doubles add, halve
  and compare whole numbers below \<open>2^53\<close> without rounding, so that on such values the
  rational model and the doubles agree. Converting an \<open>int\<close> to a double raises
  OverflowError once the value rounds to \<open>2^1024\<close>; that branch is kept.
\<close>

definition AUDIO_PTIME :: rat where
  "AUDIO_PTIME = 2 / 100"

definition float_of_int :: "int \<Rightarrow> py_error + rat" where
  "float_of_int n =
     (if \<bar>n\<bar> \<ge> 2 ^ 1024 - 2 ^ 970 then Inl OverflowError else Inr (of_int n))"

definition mul_int_float :: "int \<Rightarrow> rat \<Rightarrow> py_error + rat" where
  "mul_int_float n x = (case float_of_int n of Inl e \<Rightarrow> Inl e | Inr y \<Rightarrow> Inr (y * x))"

text \<open>\<open>int(x)\<close> on a float truncates towards zero.\<close>

definition int_of_float :: "rat \<Rightarrow> int" where
  "int_of_float x = (if x < 0 then - \<lfloor>- x\<rfloor> else \<lfloor>x\<rfloor>)"

subsection \<open>Slices\<close>

text \<open>\<open>xs[:n]\<close> and \<open>xs[n:]\<close>: a negative bound counts from the end, and bounds are clamped.\<close>

definition slice_index :: "'a list \<Rightarrow> int \<Rightarrow> nat" where
  "slice_index xs n = nat (if n < 0 then n + int (length xs) else n)"

definition slice_to :: "'a list \<Rightarrow> int \<Rightarrow> 'a list" where
  "slice_to xs n = take (slice_index xs n) xs"

definition slice_from :: "'a list \<Rightarrow> int \<Rightarrow> 'a list" where
  "slice_from xs n = drop (slice_index xs n) xs"

subsection \<open>\<open>str.split\<close> and \<open>int(str)\<close>\<close>

text \<open>
  \<open>s.split(sep)\<close> for a non-empty separator: the pieces between the non-overlapping
  occurrences of \<open>sep\<close>, found from the left. The counter \<open>k\<close> is the number of
  characters of the current occurrence still to be skipped.
\<close>

fun split_skip :: "string \<Rightarrow> nat \<Rightarrow> string \<Rightarrow> string list" where
  "split_skip sep k [] = [[]]"
| "split_skip sep k (c # cs) =
     (if 0 < k then split_skip sep (k - 1) cs
      else if prefix sep (c # cs) then [] # split_skip sep (length sep - 1) cs
      else (case split_skip sep 0 cs of
              [] \<Rightarrow> [[c]]
            | p # ps \<Rightarrow> (c # p) # ps))"

definition split :: "string \<Rightarrow> string \<Rightarrow> string list" where
  "split s sep = split_skip sep 0 s"

text \<open>
  \<open>int(s)\<close> on an ASCII string: optional surrounding whitespace, an optional sign, then
  decimal digits, where single underscores may stand between digits. Anything else
  raises ValueError.
\<close>

definition is_space :: "char \<Rightarrow> bool" where
  "is_space c = (c \<in> set [CHR '' '', CHR 0x09, CHR 0x0A, CHR 0x0B, CHR 0x0C, CHR 0x0D])"

definition is_digit :: "char \<Rightarrow> bool" where
  "is_digit c = (48 \<le> (of_char c :: nat) \<and> (of_char c :: nat) \<le> 57)"

definition digit_val :: "char \<Rightarrow> int" where
  "digit_val c = int (of_char c) - 48"

text \<open>
  \<open>digits acc after_digit s\<close>: \<open>after_digit\<close> says that the character before \<open>s\<close> was a
  digit, the only place where an underscore or the end of the literal may come.
\<close>

fun digits :: "int \<Rightarrow> bool \<Rightarrow> string \<Rightarrow> int option" where
  "digits acc after_digit [] = (if after_digit then Some acc else None)"
| "digits acc after_digit (c # cs) =
     (if is_digit c then digits (10 * acc + digit_val c) True cs
      else if c = CHR ''_'' \<and> after_digit then
        (case cs of
           [] \<Rightarrow> None
         | d # ds \<Rightarrow> if is_digit d then digits acc False cs else None)
      else None)"

definition strip :: "string \<Rightarrow> string" where
  "strip s = rev (dropWhile is_space (rev (dropWhile is_space s)))"

definition py_int :: "string \<Rightarrow> py_error + int" where
  "py_int s =
     (case strip s of
        [] \<Rightarrow> Inl ValueError
      | c # cs \<Rightarrow>
          (if c = CHR ''-'' then
             (case digits 0 False cs of None \<Rightarrow> Inl ValueError | Some n \<Rightarrow> Inr (- n))
           else if c = CHR ''+'' then
             (case digits 0 False cs of None \<Rightarrow> Inl ValueError | Some n \<Rightarrow> Inr n)
           else
             (case digits 0 False (c # cs) of None \<Rightarrow> Inl ValueError | Some n \<Rightarrow> Inr n)))"

section \<open>The egress loop \<open>run_send_track\<close>\<close>

text \<open>
  A response of the GenAI session: \<open>response.data\<close> (\<open>None\<close> for a server message
  without audio) and the declared
  \<open>response.server_content.model_turn.parts[0].inline_data.mime_type\<close>.
\<close>

record response =
  data :: "byte list option"
  mime_type :: string

text \<open>
  An \<open>av.AudioFrame\<close> as the loop fills it in: the constructor's arguments, the bytes
  written to \<open>planes[0]\<close>, and the attributes assigned afterwards.
\<close>

record audio_frame =
  frame_format :: string
  frame_layout :: string
  frame_samples :: int
  frame_sample_rate :: int
  frame_plane :: "byte list"
  frame_pts :: rat
  frame_time_base :: rat

text \<open>
  The variables of \<open>run_send_track\<close> and what it acts on: the local \<open>timestamp\<close> and
  \<open>buffer\<close>; \<open>self.send_track\<close>, which is \<open>None\<close> until the first audio track arrives
  and afterwards a \<open>SendingTrack\<close>, given by the frames put on its queue, oldest first;
  and the total delay handed to \<open>asyncio.sleep\<close>.
\<close>

record send_state =
  timestamp :: rat
  buffer :: "byte list"
  send_track :: "audio_frame list option"
  slept :: rat

text \<open>\<open>fractions.Fraction(1, d)\<close> raises ZeroDivisionError for \<open>d = 0\<close>.\<close>

definition Fraction :: "int \<Rightarrow> int \<Rightarrow> py_error + rat" where
  "Fraction n d = (if d = 0 then Inl ZeroDivisionError else Inr (of_int n / of_int d))"

text \<open>
  The inner \<open>while len(buffer) / 2 >= samples\<close> loop (lines 137 to 147). With
  \<open>samples \<le> 0\<close> the condition never becomes false, so the loop is a partial
  function: \<open>None\<close> is a loop that runs forever.
\<close>

partial_function (option) frame_loop ::
  "int \<Rightarrow> int \<Rightarrow> send_state \<Rightarrow> (outcome \<times> send_state) option" where
  "frame_loop sample_rate samples st =
     (if rat_of_nat (length (buffer st)) / 2 \<ge> rat_of_int samples then
        (let plane = slice_to (buffer st) (samples * 2);
             st1 = st\<lparr>buffer := slice_from (buffer st) (samples * 2)\<rparr>
         in case mul_int_float sample_rate AUDIO_PTIME of
              Inl e \<Rightarrow> Some (Raised e, st1)
            | Inr inc \<Rightarrow>
                (let st2 = st1\<lparr>timestamp := timestamp st1 + inc\<rparr>
                 in case Fraction 1 sample_rate of
                      Inl e \<Rightarrow> Some (Raised e, st2)
                    | Inr tb \<Rightarrow>
                        (case send_track st2 of
                           None \<Rightarrow> Some (Raised AttributeError, st2)
                         | Some q \<Rightarrow>
                             frame_loop sample_rate samples
                               (st2\<lparr>send_track := Some (q @
                                       [\<lparr>frame_format = ''s16'', frame_layout = ''mono'',
                                         frame_samples = samples,
                                         frame_sample_rate = sample_rate,
                                         frame_plane = plane,
                                         frame_pts = timestamp st2,
                                         frame_time_base = tb\<rparr>]),
                                     slept := slept st2 + AUDIO_PTIME\<rparr>))))
      else Some (Normal, st))"

text \<open>\<open>int(mime_type.split('rate=')[1])\<close> (line 132).\<close>

definition declared_rate :: "string \<Rightarrow> py_error + int" where
  "declared_rate m =
     (case split m ''rate='' of
        _ # s # _ \<Rightarrow> py_int s
      | _ \<Rightarrow> Inl IndexError)"

text \<open>\<open>int(sample_rate * AUDIO_PTIME)\<close> (line 133).\<close>

definition samples_per_frame :: "int \<Rightarrow> py_error + int" where
  "samples_per_frame sample_rate =
     (case mul_int_float sample_rate AUDIO_PTIME of
        Inl e \<Rightarrow> Inl e
      | Inr x \<Rightarrow> Inr (int_of_float x))"

text \<open>The body of \<open>async for response in turn\<close> (lines 127 to 147).\<close>

definition on_response :: "send_state \<Rightarrow> response \<Rightarrow> (outcome \<times> send_state) option" where
  "on_response st r =
     (case data r of
        None \<Rightarrow> Some (Normal, st)
      | Some d \<Rightarrow>
          (case declared_rate (mime_type r) of
             Inl e \<Rightarrow> Some (Raised e, st)
           | Inr sample_rate \<Rightarrow>
               (case samples_per_frame sample_rate of
                  Inl e \<Rightarrow> Some (Raised e, st)
                | Inr samples \<Rightarrow>
                    frame_loop sample_rate samples (st\<lparr>buffer := buffer st @ d\<rparr>))))"

text \<open>\<open>async for response in turn\<close>: an exception ends the iteration.\<close>

fun on_turn :: "send_state \<Rightarrow> response list \<Rightarrow> (outcome \<times> send_state) option" where
  "on_turn st [] = Some (Normal, st)"
| "on_turn st (r # rs) =
     (case on_response st r of
        None \<Rightarrow> None
      | Some (Raised e, st') \<Rightarrow> Some (Raised e, st')
      | Some (Normal, st') \<Rightarrow> on_turn st' rs)"

text \<open>
  \<open>while True: turn = self.genai_session.receive(); ...\<close> over the turns received so
  far, each with its responses. The result is the state reached when these have been
  consumed (the loop then waits for the next turn), or the exception that ended it.
\<close>

fun send_turns :: "send_state \<Rightarrow> response list list \<Rightarrow> (outcome \<times> send_state) option" where
  "send_turns st [] = Some (Normal, st)"
| "send_turns st (t # ts) =
     (case on_turn st t of
        None \<Rightarrow> None
      | Some (Raised e, st') \<Rightarrow> Some (Raised e, st')
      | Some (Normal, st') \<Rightarrow> send_turns st' ts)"

text \<open>\<open>run_send_track\<close> starts with \<open>timestamp = 0\<close> and \<open>buffer = b''\<close> (lines 122, 123).\<close>

definition run_send_track ::
  "audio_frame list option \<Rightarrow> response list list \<Rightarrow> (outcome \<times> send_state) option" where
  "run_send_track track turns =
     send_turns \<lparr>timestamp = 0, buffer = [], send_track = track, slept = 0\<rparr> turns"

section \<open>Connections: \<open>RTCConnection\<close>, \<open>offer\<close>, \<open>on_shutdown\<close>\<close>

text \<open>
  An attribute that the class body does not initialise is missing until it is assigned;
  reading it raises AttributeError. \<open>pc\<close>, \<open>recv_track\<close> and \<open>send_track\<close> have the
  class default \<open>None\<close> (lines 37 to 39), \<open>genai_session\<close> has none: it is assigned
  only at line 155.
\<close>

datatype 'a attribute = Missing | Bound 'a

text \<open>
  The awaited calls into the external collaborators: the peer connection
  (\<open>setRemoteDescription\<close>, \<open>createAnswer\<close>, \<open>setLocalDescription\<close>, \<open>close\<close>) and the GenAI
  session (\<open>connect\<close>, leaving its \<open>async with\<close> block, \<open>send\<close>, \<open>close\<close>).
\<close>

datatype call =
    SetRemoteDescription | CreateAnswer | SetLocalDescription
  | Connect | SessionExit | SessionSend | PcClose | SessionClose

text \<open>
  What a connection has done to the outside, in order: created its
  \<open>RTCPeerConnection\<close>, scheduled a coroutine with \<open>asyncio.ensure_future\<close>, or made
  a call.
\<close>

datatype event = NewPeerConnection | EnsureFuture | Call call

text \<open>The only coroutine proxy.py schedules for a connection here is \<open>self._run()\<close>.\<close>

datatype task = Run

text \<open>
  An \<open>RTCConnection\<close> object. Besides its attributes the record carries what the
  object is related to: whether it is in the global set \<open>connections\<close>, whether the
  event handlers of \<open>_run\<close> are attached, the tasks scheduled for it on the event loop,
  the trace of its events, and its collaborators: \<open>raises c\<close> says that the call \<open>c\<close>
  raises, \<open>local_sdp\<close> is the answer the peer connection produces.
\<close>

record connection =
  pc :: "unit option"
  genai_session :: "unit attribute"
  recv_track :: "unit option"
  conn_send_track :: "audio_frame list option"
  registered :: bool
  handlers :: bool
  tasks :: "task list"
  trace :: "event list"
  raises :: "call \<Rightarrow> bool"
  local_sdp :: string

text \<open>\<open>RTCConnection()\<close>: the class defaults; nothing is registered, scheduled or called yet.\<close>

definition RTCConnection :: "(call \<Rightarrow> bool) \<Rightarrow> string \<Rightarrow> connection" where
  "RTCConnection env sdp =
     \<lparr>pc = None, genai_session = Missing, recv_track = None, conn_send_track = None,
      registered = False, handlers = False, tasks = [], trace = [],
      raises = env, local_sdp = sdp\<rparr>"

text \<open>\<open>await\<close> of a collaborator call: the call is made, and returns or raises.\<close>

definition await :: "call \<Rightarrow> connection \<Rightarrow> outcome \<times> connection" where
  "await c self =
     (let self' = self\<lparr>trace := trace self @ [Call c]\<rparr>
      in if raises self c then (Raised ExternalError, self') else (Normal, self'))"

text \<open>
  \<open>RTCConnection.close\<close> (lines 167 to 171): \<open>if self.pc: await self.pc.close()\<close>, then
  \<open>if self.genai_session: await self.genai_session.close()\<close>. There is no \<open>try\<close>: an
  exception of the first statement ends the method.
\<close>

definition close :: "connection \<Rightarrow> outcome \<times> connection" where
  "close self =
     (case (case pc self of
              None \<Rightarrow> (Normal, self)
            | Some p \<Rightarrow> await PcClose self) of
        (Raised e, self1) \<Rightarrow> (Raised e, self1)
      | (Normal, self1) \<Rightarrow>
          (case genai_session self1 of
             Missing \<Rightarrow> (Raised AttributeError, self1)
           | Bound s \<Rightarrow> await SessionClose self1))"

text \<open>
  \<open>RTCConnection.handle_offer\<close> (lines 41 to 57) on the text of the request: the peer
  connection is created, \<open>self._run()\<close> is scheduled, and then the three negotiation
  calls are awaited. The result is the SDP of the answer or the exception raised.
\<close>

definition handle_offer :: "string \<Rightarrow> connection \<Rightarrow> (py_error + string) \<times> connection" where
  "handle_offer content self =
     (let self1 = self\<lparr>pc := Some (), trace := trace self @ [NewPeerConnection]\<rparr>;
          self2 = self1\<lparr>tasks := tasks self1 @ [Run], trace := trace self1 @ [EnsureFuture]\<rparr>
      in case await SetRemoteDescription self2 of
           (Raised e, self3) \<Rightarrow> (Inl e, self3)
         | (Normal, self3) \<Rightarrow>
             (case await CreateAnswer self3 of
                (Raised e, self4) \<Rightarrow> (Inl e, self4)
              | (Normal, self4) \<Rightarrow>
                  (case await SetLocalDescription self4 of
                     (Raised e, self5) \<Rightarrow> (Inl e, self5)
                   | (Normal, self5) \<Rightarrow> (Inr (local_sdp self5), self5))))"

text \<open>
  \<open>offer\<close> (lines 174 to 177): a new connection is added to \<open>connections\<close> and handles
  the offer.
\<close>

definition offer :: "string \<Rightarrow> (call \<Rightarrow> bool) \<Rightarrow> string \<Rightarrow> (py_error + string) \<times> connection" where
  "offer content env sdp = handle_offer content ((RTCConnection env sdp)\<lparr>registered := True\<rparr>)"

text \<open>
  The data-channel handler \<open>on_message\<close> (lines 70 to 72):
  \<open>if self.genai_session: await self.genai_session.send(...)\<close>.
\<close>

definition on_message :: "string \<Rightarrow> connection \<Rightarrow> outcome \<times> connection" where
  "on_message message self =
     (case genai_session self of
        Missing \<Rightarrow> (Raised AttributeError, self)
      | Bound s \<Rightarrow> await SessionSend self)"

text \<open>
  \<open>RTCConnection._run\<close> in its parts. First the handlers are attached with
  \<open>@self.pc.on(...)\<close> (lines 67 to 96), outside the \<open>try\<close>.
\<close>

definition register_handlers :: "connection \<Rightarrow> outcome \<times> connection" where
  "register_handlers self =
     (case pc self of
        None \<Rightarrow> (Raised AttributeError, self)
      | Some p \<Rightarrow> (Normal, self\<lparr>handlers := True\<rparr>))"

text \<open>
  Then \<open>async with client.aio.live.connect(...) as session: self.genai_session = session\<close>
  (lines 151 to 155). Nothing before it in \<open>_run\<close> looks at the negotiation.
\<close>

definition connect_session :: "connection \<Rightarrow> outcome \<times> connection" where
  "connect_session self =
     (case await Connect self of
        (Raised e, self1) \<Rightarrow> (Raised e, self1)
      | (Normal, self1) \<Rightarrow> (Normal, self1\<lparr>genai_session := Bound ()\<rparr>))"

text \<open>
  How the task stands: suspended in \<open>run_send_track\<close> waiting for the next response,
  run to its end, or ended by an exception.
\<close>

datatype task_status = Suspended | Completed | Crashed py_error

text \<open>
  After the \<open>try\<close> (lines 163 to 165): \<open>await self.close()\<close>, then
  \<open>connections.discard(self)\<close>, which an exception of \<open>close\<close> skips.
\<close>

definition after_try :: "connection \<Rightarrow> task_status \<times> connection" where
  "after_try self =
     (case close self of
        (Raised e, self1) \<Rightarrow> (Crashed e, self1)
      | (Normal, self1) \<Rightarrow> (Completed, self1\<lparr>registered := False\<rparr>))"

text \<open>
  \<open>_run\<close> on the turns the session delivers. \<open>except Exception\<close> (line 160) catches what
  \<open>connect\<close> or \<open>run_send_track\<close> raise; leaving the \<open>async with\<close> block is a call to the
  session.
\<close>

definition conn_run :: "response list list \<Rightarrow> connection \<Rightarrow> (task_status \<times> connection) option" where
  "conn_run turns self =
     (case register_handlers self of
        (Raised e, self1) \<Rightarrow> Some (Crashed e, self1)
      | (Normal, self1) \<Rightarrow>
          (case connect_session self1 of
             (Raised e, self2) \<Rightarrow> Some (after_try self2)
           | (Normal, self2) \<Rightarrow>
               (case run_send_track (conn_send_track self2) turns of
                  None \<Rightarrow> None
                | Some (Normal, st) \<Rightarrow>
                    Some (Suspended, self2\<lparr>conn_send_track := send_track st\<rparr>)
                | Some (Raised e, st) \<Rightarrow>
                    Some (after_try
                      (snd (await SessionExit (self2\<lparr>conn_send_track := send_track st\<rparr>)))))))"

text \<open>
  \<open>asyncio.gather(*coros)\<close> without \<open>return_exceptions\<close>: every coroutine is run, and
  the first exception is raised to the caller.
\<close>

fun gather :: "(outcome \<times> 'a) list \<Rightarrow> outcome" where
  "gather [] = Normal"
| "gather ((Normal, x) # rs) = gather rs"
| "gather ((Raised e, x) # rs) = Raised e"

text \<open>
  \<open>on_shutdown\<close> (lines 180 to 184) on the connection objects of the process:
  \<open>close()\<close> of every member of \<open>connections\<close> is gathered, then \<open>connections.clear()\<close>,
  which an exception of the gathering skips.
\<close>

definition on_shutdown :: "connection list \<Rightarrow> outcome \<times> connection list" where
  "on_shutdown objects =
     (let coros = map (\<lambda>conn. if registered conn then close conn else (Normal, conn)) objects
      in case gather coros of
           Raised e \<Rightarrow> (Raised e, map snd coros)
         | Normal \<Rightarrow> (Normal, map (\<lambda>(out, conn). conn\<lparr>registered := False\<rparr>) coros))"

text \<open>The global set \<open>connections\<close>: the registered objects.\<close>

definition connections :: "connection list \<Rightarrow> connection list" where
  "connections objects = filter registered objects"

text \<open>
  A live connection: \<open>offer\<close> has been answered and the scheduled \<open>_run\<close> has attached
  its handlers and opened the session.
\<close>

definition live :: "(call \<Rightarrow> bool) \<Rightarrow> connection" where
  "live env =
     snd (connect_session (snd (register_handlers (snd (offer ''offer'' env ''answer'')))))"

section \<open>Vocabulary for the properties of the egress loop\<close>

text \<open>
  The bytes a response contributes to the accumulator, the frames a run has put on the
  queue, and the conditions under which a response can be cut into frames.
\<close>

text \<open>The bytes of a response: \<open>response.data\<close>, nothing for a server message.\<close>

definition payload :: "response \<Rightarrow> byte list" where
  "payload r = (case data r of None \<Rightarrow> [] | Some d \<Rightarrow> d)"

text \<open>The frames on the queue of the send track when a run has stopped.\<close>

definition emitted :: "(outcome \<times> send_state) option \<Rightarrow> audio_frame list" where
  "emitted res =
     (case res of
        None \<Rightarrow> []
      | Some (out, st) \<Rightarrow> (case send_track st of None \<Rightarrow> [] | Some q \<Rightarrow> q))"

text \<open>
  A response the loop can frame: it carries no audio, or its mime type declares a rate at
  which a 20 ms frame holds at least one sample.
\<close>

definition framable :: "response \<Rightarrow> bool" where
  "framable r =
     (case data r of
        None \<Rightarrow> True
      | Some d \<Rightarrow>
          (case declared_rate (mime_type r) of
             Inl e \<Rightarrow> False
           | Inr rate \<Rightarrow> (case samples_per_frame rate of Inl e \<Rightarrow> False | Inr n \<Rightarrow> 0 < n)))"

text \<open>Every audio response declares one of the rates \<open>R\<close>.\<close>

definition declares :: "int set \<Rightarrow> response \<Rightarrow> bool" where
  "declares R r = (data r \<noteq> None \<longrightarrow> (\<exists>rate \<in> R. declared_rate (mime_type r) = Inr rate))"

text \<open>
  An audio response whose declared rate is a positive multiple of 50, so that
  \<open>sample_rate * AUDIO_PTIME\<close> is the whole number of samples of a frame.
\<close>

definition declares_whole_frames :: "response \<Rightarrow> bool" where
  "declares_whole_frames r =
     (case data r of
        None \<Rightarrow> True
      | Some d \<Rightarrow>
          (case declared_rate (mime_type r) of
             Inl e \<Rightarrow> False
           | Inr rate \<Rightarrow>
               (case samples_per_frame rate of
                  Inl e \<Rightarrow> False
                | Inr n \<Rightarrow> 0 < n \<and> rate = 50 * n)))"

text \<open>
  Each frame's timestamp is the previous one (\<open>t\<close> for the first frame) plus the
  frame's own sample count.
\<close>

fun pts_chain :: "rat \<Rightarrow> audio_frame list \<Rightarrow> bool" where
  "pts_chain t [] = True"
| "pts_chain t (f # fs) = (frame_pts f = t + rat_of_int (frame_samples f) \<and> pts_chain (frame_pts f) fs)"

text \<open>What line 143 adds to \<open>timestamp\<close> for a frame: \<open>sample_rate * AUDIO_PTIME\<close>.\<close>

definition frame_increment :: "audio_frame \<Rightarrow> rat" where
  "frame_increment f = rat_of_int (frame_sample_rate f) * AUDIO_PTIME"

text \<open>Each frame is stamped with the counter after it has been advanced by line 143.\<close>

fun pts_steps :: "rat \<Rightarrow> audio_frame list \<Rightarrow> bool" where
  "pts_steps t [] = True"
| "pts_steps t (f # fs) = (frame_pts f = t + frame_increment f \<and> pts_steps (t + frame_increment f) fs)"

text \<open>A frame cut by the loop: \<open>samples\<close> is line 133's value and the plane holds two bytes per sample.\<close>

definition well_framed :: "audio_frame \<Rightarrow> bool" where
  "well_framed f =
     (samples_per_frame (frame_sample_rate f) = Inr (frame_samples f) \<and>
      0 < frame_samples f \<and>
      int (length (frame_plane f)) = 2 * frame_samples f)"

text \<open>
  \<open>framed R st bs st' fs\<close>: from state \<open>st\<close>, taking in the bytes \<open>bs\<close>, the loop has
  reached \<open>st'\<close> by appending the frames \<open>fs\<close> to the queue.
\<close>

definition framed :: "int set \<Rightarrow> send_state \<Rightarrow> byte list \<Rightarrow> send_state \<Rightarrow> audio_frame list \<Rightarrow> bool" where
  "framed R st bs st' fs =
     (send_track st' = map_option (\<lambda>q. q @ fs) (send_track st) \<and>
      (send_track st = None \<longrightarrow> fs = []) \<and>
      concat (map frame_plane fs) @ buffer st' = buffer st @ bs \<and>
      (\<forall>f \<in> set fs. frame_sample_rate f \<in> R \<and> well_framed f) \<and>
      pts_steps (timestamp st) fs \<and>
      timestamp st' = timestamp st + sum_list (map frame_increment fs) \<and>
      slept st' = slept st + rat_of_nat (length fs) * AUDIO_PTIME)"

section \<open>Arithmetic and slices\<close>

lemma guard_iff: "(rat_of_int n \<le> rat_of_nat (length xs) / 2) = (2 * n \<le> int (length xs))"
proof -
  have "(rat_of_int n \<le> rat_of_nat (length xs) / 2) = (rat_of_int n * 2 \<le> rat_of_nat (length xs))"
    by (simp add: pos_le_divide_eq)
  also have "\<dots> = (rat_of_int (n * 2) \<le> rat_of_int (int (length xs)))"
    by simp
  also have "\<dots> = (n * 2 \<le> int (length xs))"
    by (simp only: of_int_le_iff)
  finally show ?thesis by (simp add: mult.commute)
qed

lemma slice_to_from: "slice_to xs n @ slice_from xs n = xs"
  by (simp add: slice_to_def slice_from_def)

lemma length_slice_to: "0 \<le> n \<Longrightarrow> n \<le> int (length xs) \<Longrightarrow> int (length (slice_to xs n)) = n"
  by (simp add: slice_to_def slice_index_def)

lemma length_slice_from: "0 \<le> n \<Longrightarrow> n \<le> int (length xs) \<Longrightarrow> int (length (slice_from xs n)) = int (length xs) - n"
  by (simp add: slice_from_def slice_index_def)

lemma mul_int_float_Inr: "mul_int_float r x = Inr y \<Longrightarrow> y = rat_of_int r * x"
  by (auto simp: mul_int_float_def float_of_int_def split: if_splits)

lemma samples_per_frame_Inr:
  "samples_per_frame r = Inr n \<Longrightarrow>
     mul_int_float r AUDIO_PTIME = Inr (rat_of_int r * AUDIO_PTIME) \<and>
     n = int_of_float (rat_of_int r * AUDIO_PTIME)"
  by (auto simp: samples_per_frame_def mul_int_float_def float_of_int_def split: if_splits)

lemma samples_pos_rate: "samples_per_frame r = Inr n \<Longrightarrow> 0 < n \<Longrightarrow> r \<noteq> 0"
  by (auto simp: samples_per_frame_def mul_int_float_def float_of_int_def int_of_float_def split: if_splits)

section \<open>The framing relation\<close>

lemma pts_steps_append:
  "pts_steps t (fs @ gs) = (pts_steps t fs \<and> pts_steps (t + sum_list (map frame_increment fs)) gs)"
  by (induction fs arbitrary: t) (auto simp: add.assoc)

lemma framed_refl: "framed R st [] st []"
  by (simp add: framed_def option.map_ident)

lemma framed_trans:
  assumes "framed R st bs st1 fs" and "framed R st1 cs st2 gs"
  shows "framed R st (bs @ cs) st2 (fs @ gs)"
proof -
  have "send_track st2 = map_option (\<lambda>q. q @ (fs @ gs)) (send_track st)"
    using assms by (cases "send_track st") (simp_all add: framed_def)
  moreover have "send_track st = None \<longrightarrow> fs @ gs = []"
    using assms by (simp add: framed_def)
  moreover have "concat (map frame_plane (fs @ gs)) @ buffer st2 = buffer st @ bs @ cs"
  proof -
    have "concat (map frame_plane (fs @ gs)) @ buffer st2
        = concat (map frame_plane fs) @ (concat (map frame_plane gs) @ buffer st2)"
      by simp
    also have "\<dots> = concat (map frame_plane fs) @ (buffer st1 @ cs)"
      using assms(2) by (simp add: framed_def)
    also have "\<dots> = (concat (map frame_plane fs) @ buffer st1) @ cs"
      by simp
    also have "\<dots> = (buffer st @ bs) @ cs"
      using assms(1) by (simp add: framed_def)
    finally show ?thesis by simp
  qed
  moreover have "\<forall>f \<in> set (fs @ gs). frame_sample_rate f \<in> R \<and> well_framed f"
    using assms by (auto simp: framed_def)
  moreover have "pts_steps (timestamp st) (fs @ gs)"
    using assms by (simp add: framed_def pts_steps_append)
  moreover have "timestamp st2 = timestamp st + sum_list (map frame_increment (fs @ gs))"
    using assms by (simp add: framed_def)
  moreover have "slept st2 = slept st + rat_of_nat (length (fs @ gs)) * AUDIO_PTIME"
    using assms by (simp add: framed_def algebra_simps)
  ultimately show ?thesis
    unfolding framed_def by blast
qed

lemma framed_track: "framed R st bs st' fs \<Longrightarrow> send_track st \<noteq> None \<Longrightarrow> send_track st' \<noteq> None"
  by (auto simp: framed_def)

lemma framed_step:
  assumes g: "2 * n \<le> int (length (buffer st))" and n: "0 < n"
    and spf: "samples_per_frame r = Inr n" and q: "send_track st = Some q"
    and f: "f = \<lparr>frame_format = fmt, frame_layout = lay, frame_samples = n,
                 frame_sample_rate = r, frame_plane = slice_to (buffer st) (n * 2),
                 frame_pts = timestamp st + rat_of_int r * AUDIO_PTIME, frame_time_base = tb\<rparr>"
    and st': "st' = st\<lparr>buffer := slice_from (buffer st) (n * 2),
                        timestamp := timestamp st + rat_of_int r * AUDIO_PTIME,
                        send_track := Some (q @ [f]),
                        slept := slept st + AUDIO_PTIME\<rparr>"
  shows "framed {r} st [] st' [f]"
proof -
  have len: "int (length (frame_plane f)) = 2 * n"
    using g n by (simp add: f length_slice_to mult.commute)
  have wf: "well_framed f"
    using len n spf by (simp add: well_framed_def f)
  have cat: "concat (map frame_plane [f]) @ buffer st' = buffer st @ []"
    by (simp add: f st' slice_to_from)
  have inc: "frame_increment f = rat_of_int r * AUDIO_PTIME"
    by (simp add: frame_increment_def f)
  show ?thesis
    unfolding framed_def
    using wf cat inc q by (simp add: st' f)
qed

section \<open>The inner loop\<close>

text \<open>
  Whenever the loop returns normally it has exited through its condition, and what it
  did is a framing of the accumulator. The induction is the fixed-point induction of the
  partial function, so it also covers the arguments on which the loop never returns.
\<close>

lemma frame_loop_sound_aux:
  assumes run: "frame_loop r n st = Some y"
  shows "samples_per_frame r = Inr n \<longrightarrow>
       (\<forall>st'. y = (Normal, st') \<longrightarrow>
          int (length (buffer st')) < 2 * n \<and> (\<exists>fs. framed {r} st [] st' fs))"
proof (rule frame_loop.raw_induct[where P = "\<lambda>r n st y. samples_per_frame r = Inr n \<longrightarrow>
       (\<forall>st'. y = (Normal, st') \<longrightarrow>
          int (length (buffer st')) < 2 * n \<and> (\<exists>fs. framed {r} st [] st' fs))", OF _ run], goal_cases)
  case (1 loop r n st y)
  show ?case
  proof (intro impI allI)
    fix st'
    assume spf: "samples_per_frame r = Inr n" and y: "y = (Normal, st')"
    note mul = samples_per_frame_Inr[OF spf]
    show "int (length (buffer st')) < 2 * n \<and> (\<exists>fs. framed {r} st [] st' fs)"
    proof (cases "2 * n \<le> int (length (buffer st))")
      case False
      with 1(2) y have "st' = st" by (simp add: guard_iff)
      with False show ?thesis using framed_refl by auto
    next
      case True
      show ?thesis
      proof (cases "Fraction 1 r")
        case (Inl e)
        with 1(2) True y mul show ?thesis by (simp add: guard_iff Let_def)
      next
        case (Inr tb)
        show ?thesis
        proof (cases "send_track st")
          case None
          with 1(2) True y mul Inr show ?thesis by (simp add: guard_iff Let_def)
        next
          case (Some q)
          define f where "f = \<lparr>frame_format = ''s16'', frame_layout = ''mono'', frame_samples = n,
                 frame_sample_rate = r, frame_plane = slice_to (buffer st) (n * 2),
                 frame_pts = timestamp st + rat_of_int r * AUDIO_PTIME, frame_time_base = tb\<rparr>"
          define st1 where "st1 = st\<lparr>buffer := slice_from (buffer st) (n * 2),
                        timestamp := timestamp st + rat_of_int r * AUDIO_PTIME,
                        send_track := Some (q @ [f]),
                        slept := slept st + AUDIO_PTIME\<rparr>"
          from 1(2) True mul Inr Some have "loop r n st1 = Some y"
            by (simp add: guard_iff Let_def st1_def f_def)
          from 1(1)[OF this] spf y
          have bound: "int (length (buffer st')) < 2 * n" and ex: "\<exists>fs. framed {r} st1 [] st' fs"
            by auto
          from bound have n: "0 < n" by linarith
          from ex obtain fs where fs: "framed {r} st1 [] st' fs" ..
          have "framed {r} st [] st1 [f]"
            by (rule framed_step[OF True n spf Some f_def st1_def])
          from framed_trans[OF this fs] have "framed {r} st [] st' (f # fs)" by simp
          with bound show ?thesis by blast
        qed
      qed
    qed
  qed
qed

lemma frame_loop_sound:
  assumes "frame_loop r n st = Some (Normal, st')" and "samples_per_frame r = Inr n"
  shows "int (length (buffer st')) < 2 * n" and "\<exists>fs. framed {r} st [] st' fs"
  using frame_loop_sound_aux[OF assms(1)] assms(2) by auto

text \<open>With a positive frame size and a send track the loop returns: each pass shortens the accumulator.\<close>

lemma frame_loop_returns:
  assumes spf: "samples_per_frame r = Inr n" and n: "0 < n"
  shows "send_track st \<noteq> None \<Longrightarrow> \<exists>st'. frame_loop r n st = Some (Normal, st')"
proof (induction "length (buffer st)" arbitrary: st rule: less_induct)
  case less
  note mul = samples_per_frame_Inr[OF spf]
  have r: "r \<noteq> 0" by (rule samples_pos_rate[OF spf n])
  show ?case
  proof (cases "2 * n \<le> int (length (buffer st))")
    case False
    then show ?thesis by (subst frame_loop.simps) (simp add: guard_iff)
  next
    case True
    from less(2) obtain q where q: "send_track st = Some q" by auto
    define f where "f = \<lparr>frame_format = ''s16'', frame_layout = ''mono'', frame_samples = n,
                 frame_sample_rate = r, frame_plane = slice_to (buffer st) (n * 2),
                 frame_pts = timestamp st + rat_of_int r * AUDIO_PTIME, frame_time_base = 1 / rat_of_int r\<rparr>"
    define st1 where "st1 = st\<lparr>buffer := slice_from (buffer st) (n * 2),
                        timestamp := timestamp st + rat_of_int r * AUDIO_PTIME,
                        send_track := Some (q @ [f]),
                        slept := slept st + AUDIO_PTIME\<rparr>"
    have step: "frame_loop r n st = frame_loop r n st1"
      using True mul r q
      by (subst frame_loop.simps) (simp add: guard_iff Let_def Fraction_def st1_def f_def)
    have "int (length (buffer st1)) = int (length (buffer st)) - n * 2"
      using True n by (simp add: st1_def length_slice_from mult.commute)
    with n have "length (buffer st1) < length (buffer st)" by linarith
    moreover have "send_track st1 \<noteq> None" by (simp add: st1_def)
    ultimately have "\<exists>st'. frame_loop r n st1 = Some (Normal, st')"
      by (rule less(1))
    with step show ?thesis by simp
  qed
qed

lemma frame_loop_exit:
  "int (length (buffer st)) < 2 * n \<Longrightarrow> frame_loop r n st = Some (Normal, st)"
  by (subst frame_loop.simps) (simp add: guard_iff)

lemma frame_loop_step:
  assumes "2 * n \<le> int (length (buffer st))" and "mul_int_float r AUDIO_PTIME = Inr inc"
    and "r \<noteq> 0" and "send_track st = Some q"
  shows "frame_loop r n st =
     frame_loop r n
       (st\<lparr>buffer := slice_from (buffer st) (n * 2),
           timestamp := timestamp st + inc,
           send_track := Some (q @
          [\<lparr>frame_format = ''s16'', frame_layout = ''mono'', frame_samples = n,
            frame_sample_rate = r, frame_plane = slice_to (buffer st) (n * 2),
            frame_pts = timestamp st + inc, frame_time_base = 1 / rat_of_int r\<rparr>]),
           slept := slept st + AUDIO_PTIME\<rparr>)"
  using assms by (subst frame_loop.simps) (simp add: guard_iff Let_def Fraction_def)

section \<open>Responses, turns and the whole run\<close>

lemma on_response_sound:
  assumes run: "on_response st r = Some (Normal, st')" and R: "declares R r"
  shows "\<exists>fs. framed R st (payload r) st' fs"
proof (cases "data r")
  case None
  with run have "st' = st" by (simp add: on_response_def)
  with None show ?thesis using framed_refl[of R st] by (auto simp: payload_def)
next
  case (Some d)
  with R obtain rate where rate: "rate \<in> R" "declared_rate (mime_type r) = Inr rate"
    by (auto simp: declares_def)
  from run Some rate obtain n where n: "samples_per_frame rate = Inr n"
    and loop: "frame_loop rate n (st\<lparr>buffer := buffer st @ d\<rparr>) = Some (Normal, st')"
    by (cases "samples_per_frame rate") (simp_all add: on_response_def)
  from frame_loop_sound(2)[OF loop n] obtain fs
    where "framed {rate} (st\<lparr>buffer := buffer st @ d\<rparr>) [] st' fs" ..
  then have "framed R st d st' fs"
    using rate(1) by (auto simp: framed_def)
  with Some show ?thesis by (auto simp: payload_def)
qed

lemma on_response_bound:
  assumes run: "on_response st r = Some (Normal, st')" and d: "data r = Some d"
    and rate: "declared_rate (mime_type r) = Inr rate" and n: "samples_per_frame rate = Inr n"
  shows "int (length (buffer st')) < 2 * n"
proof -
  from run d rate n have "frame_loop rate n (st\<lparr>buffer := buffer st @ d\<rparr>) = Some (Normal, st')"
    by (simp add: on_response_def)
  from frame_loop_sound(1)[OF this n] show ?thesis .
qed

lemma on_response_returns:
  assumes "framable r" and "send_track st \<noteq> None"
  shows "\<exists>st'. on_response st r = Some (Normal, st')"
proof (cases "data r")
  case None
  then show ?thesis by (simp add: on_response_def)
next
  case (Some d)
  with assms(1) obtain rate n where rate: "declared_rate (mime_type r) = Inr rate"
    and n: "samples_per_frame rate = Inr n" "0 < n"
    by (auto simp: framable_def split: sum.splits)
  have "send_track (st\<lparr>buffer := buffer st @ d\<rparr>) \<noteq> None"
    using assms(2) by simp
  from frame_loop_returns[OF n this] Some rate n(1) show ?thesis
    by (simp add: on_response_def)
qed

lemma on_turn_Normal_Cons:
  "on_turn st (r # rs) = Some (Normal, st') \<longleftrightarrow>
     (\<exists>st1. on_response st r = Some (Normal, st1) \<and> on_turn st1 rs = Some (Normal, st'))"
  by (auto split: option.splits outcome.splits prod.splits)

lemma send_turns_Normal_Cons:
  "send_turns st (t # ts) = Some (Normal, st') \<longleftrightarrow>
     (\<exists>st1. on_turn st t = Some (Normal, st1) \<and> send_turns st1 ts = Some (Normal, st'))"
  by (auto split: option.splits outcome.splits prod.splits)

lemma on_turn_Normal_append:
  "on_turn st (rs @ rs') = Some (Normal, st') \<longleftrightarrow>
     (\<exists>st1. on_turn st rs = Some (Normal, st1) \<and> on_turn st1 rs' = Some (Normal, st'))"
proof (induction rs arbitrary: st)
  case Nil
  show ?case by simp
next
  case (Cons r rs)
  show ?case
    unfolding append_Cons on_turn_Normal_Cons Cons.IH by blast
qed

lemma send_turns_Normal_append:
  "send_turns st (ts @ ts') = Some (Normal, st') \<longleftrightarrow>
     (\<exists>st1. send_turns st ts = Some (Normal, st1) \<and> send_turns st1 ts' = Some (Normal, st'))"
proof (induction ts arbitrary: st)
  case Nil
  show ?case by simp
next
  case (Cons t ts)
  show ?case
    unfolding append_Cons send_turns_Normal_Cons Cons.IH by blast
qed

lemma on_turn_sound:
  "on_turn st rs = Some (Normal, st') \<Longrightarrow> \<forall>r \<in> set rs. declares R r \<Longrightarrow>
     \<exists>fs. framed R st (concat (map payload rs)) st' fs"
proof (induction rs arbitrary: st)
  case Nil
  then show ?case using framed_refl[of R st] by auto
next
  case (Cons r rs)
  from Cons.prems(1) obtain st1 where 1: "on_response st r = Some (Normal, st1)"
    and 2: "on_turn st1 rs = Some (Normal, st')"
    unfolding on_turn_Normal_Cons by blast
  from on_response_sound[OF 1] Cons.prems(2) obtain fs where fs: "framed R st (payload r) st1 fs"
    by auto
  from Cons.IH[OF 2] Cons.prems(2) obtain gs where gs: "framed R st1 (concat (map payload rs)) st' gs"
    by auto
  from framed_trans[OF fs gs] show ?case by auto
qed

lemma send_turns_sound:
  "send_turns st ts = Some (Normal, st') \<Longrightarrow> \<forall>t \<in> set ts. \<forall>r \<in> set t. declares R r \<Longrightarrow>
     \<exists>fs. framed R st (concat (map payload (concat ts))) st' fs"
proof (induction ts arbitrary: st)
  case Nil
  then show ?case using framed_refl[of R st] by auto
next
  case (Cons t ts)
  from Cons.prems(1) obtain st1 where 1: "on_turn st t = Some (Normal, st1)"
    and 2: "send_turns st1 ts = Some (Normal, st')"
    unfolding send_turns_Normal_Cons by blast
  have "\<forall>r \<in> set t. declares R r" using Cons.prems(2) by simp
  from on_turn_sound[OF 1 this] obtain fs
    where fs: "framed R st (concat (map payload t)) st1 fs" ..
  from Cons.IH[OF 2] Cons.prems(2) obtain gs
    where gs: "framed R st1 (concat (map payload (concat ts))) st' gs"
    by auto
  from framed_trans[OF fs gs] show ?case by auto
qed

lemma framable_declares: "framable r \<Longrightarrow> declares UNIV r"
  by (auto simp: framable_def declares_def split: option.splits sum.splits)

lemma on_turn_returns:
  "\<forall>r \<in> set rs. framable r \<Longrightarrow> send_track st \<noteq> None \<Longrightarrow>
     \<exists>st'. on_turn st rs = Some (Normal, st') \<and> send_track st' \<noteq> None"
proof (induction rs arbitrary: st)
  case Nil
  then show ?case by simp
next
  case (Cons r rs)
  from on_response_returns[of r st] Cons.prems obtain st1
    where 1: "on_response st r = Some (Normal, st1)" by auto
  from on_response_sound[OF 1 framable_declares] Cons.prems
  have "send_track st1 \<noteq> None" by (auto dest: framed_track)
  from Cons.IH[OF _ this] Cons.prems(1) obtain st'
    where "on_turn st1 rs = Some (Normal, st')" "send_track st' \<noteq> None" by auto
  with 1 show ?case unfolding on_turn_Normal_Cons by blast
qed

lemma send_turns_returns:
  "\<forall>t \<in> set ts. \<forall>r \<in> set t. framable r \<Longrightarrow> send_track st \<noteq> None \<Longrightarrow>
     \<exists>st'. send_turns st ts = Some (Normal, st') \<and> send_track st' \<noteq> None"
proof (induction ts arbitrary: st)
  case Nil
  then show ?case by simp
next
  case (Cons t ts)
  from on_turn_returns[of t st] Cons.prems obtain st1
    where 1: "on_turn st t = Some (Normal, st1)" "send_track st1 \<noteq> None" by auto
  from Cons.IH[OF _ 1(2)] Cons.prems(1) obtain st'
    where "send_turns st1 ts = Some (Normal, st')" "send_track st' \<noteq> None" by auto
  with 1 show ?case unfolding send_turns_Normal_Cons by blast
qed

lemma run_send_track_sound:
  assumes "run_send_track track turns = Some (Normal, st')"
    and "\<forall>t \<in> set turns. \<forall>r \<in> set t. declares R r"
  shows "\<exists>fs. framed R \<lparr>timestamp = 0, buffer = [], send_track = track, slept = 0\<rparr>
            (concat (map payload (concat turns))) st' fs"
  using send_turns_sound[OF assms(1)[unfolded run_send_track_def] assms(2)] .

lemma run_send_track_returns:
  assumes "\<forall>t \<in> set turns. \<forall>r \<in> set t. framable r" and "track \<noteq> None"
  shows "\<exists>st'. run_send_track track turns = Some (Normal, st')"
  using send_turns_returns[OF assms(1), of "\<lparr>timestamp = 0, buffer = [], send_track = track, slept = 0\<rparr>"] assms(2)
  by (auto simp: run_send_track_def)

lemma whole_frames_framable: "declares_whole_frames r \<Longrightarrow> framable r"
  by (auto simp: declares_whole_frames_def framable_def split: option.splits sum.splits)

lemma whole_frames_declares: "declares_whole_frames r \<Longrightarrow> declares {rate. \<exists>n. samples_per_frame rate = Inr n \<and> rate = 50 * n} r"
  by (auto simp: declares_whole_frames_def declares_def split: option.splits sum.splits)

lemma pts_steps_chain:
  "pts_steps t fs \<Longrightarrow> \<forall>f \<in> set fs. frame_increment f = rat_of_int (frame_samples f) \<Longrightarrow> pts_chain t fs"
  by (induction fs arbitrary: t) auto

lemma whole_increment:
  assumes "well_framed f" and "samples_per_frame (frame_sample_rate f) = Inr n" and "frame_sample_rate f = 50 * n"
  shows "frame_increment f = rat_of_int (frame_samples f)"
proof -
  from assms(1,2) have "frame_samples f = n" by (simp add: well_framed_def)
  then show ?thesis using assms(3) by (simp add: frame_increment_def AUDIO_PTIME_def)
qed

section \<open>Two concrete runs\<close>

lemma rate_24000: "declared_rate ''audio/pcm;rate=24000'' = Inr 24000"
  by code_simp

lemma spf_24000: "samples_per_frame 24000 = Inr 480"
  by (simp add: samples_per_frame_def mul_int_float_def float_of_int_def AUDIO_PTIME_def int_of_float_def)

lemma mul_24000: "mul_int_float 24000 AUDIO_PTIME = Inr 480"
  by (simp add: mul_int_float_def float_of_int_def AUDIO_PTIME_def)

lemma rate_11025: "declared_rate ''audio/pcm;rate=11025'' = Inr 11025"
  by code_simp

lemma spf_11025: "samples_per_frame 11025 = Inr 220"
  by code_simp

lemma mul_11025: "mul_int_float 11025 AUDIO_PTIME = Inr (441 / 2)"
  by (simp add: mul_int_float_def float_of_int_def AUDIO_PTIME_def)

lemma run_24000_1920:
  assumes "length d = 1920"
  shows "run_send_track (Some [])
       [[\<lparr>data = Some d, mime_type = ''audio/pcm;rate=24000''\<rparr>]] =
     Some (Normal,
       \<lparr>timestamp = 960, buffer = [],
        send_track = Some
          [\<lparr>frame_format = ''s16'', frame_layout = ''mono'', frame_samples = 480,
            frame_sample_rate = 24000, frame_plane = take 960 d,
            frame_pts = 480, frame_time_base = 1 / 24000\<rparr>,
           \<lparr>frame_format = ''s16'', frame_layout = ''mono'', frame_samples = 480,
            frame_sample_rate = 24000, frame_plane = drop 960 d,
            frame_pts = 960, frame_time_base = 1 / 24000\<rparr>],
        slept = 1 / 25\<rparr>)"
proof -
  let ?st0 = "\<lparr>timestamp = 0, buffer = d, send_track = Some [], slept = 0\<rparr>"
  let ?f1 = "\<lparr>frame_format = ''s16'', frame_layout = ''mono'', frame_samples = 480,
            frame_sample_rate = 24000, frame_plane = take 960 d,
            frame_pts = 480, frame_time_base = 1 / 24000\<rparr>"
  let ?f2 = "\<lparr>frame_format = ''s16'', frame_layout = ''mono'', frame_samples = 480,
            frame_sample_rate = 24000, frame_plane = drop 960 d,
            frame_pts = 960, frame_time_base = 1 / 24000\<rparr>"
  let ?st1 = "\<lparr>timestamp = 480, buffer = drop 960 d, send_track = Some [?f1], slept = 1 / 50\<rparr>"
  let ?st2 = "\<lparr>timestamp = 960, buffer = [], send_track = Some [?f1, ?f2], slept = 1 / 25\<rparr>"
  have 1: "frame_loop 24000 480 ?st0 = frame_loop 24000 480 ?st1"
    using assms
    by (subst frame_loop_step[where q = "[]", OF _ mul_24000])
       (simp_all add: slice_from_def slice_to_def slice_index_def AUDIO_PTIME_def)
  have 2: "frame_loop 24000 480 ?st1 = frame_loop 24000 480 ?st2"
    using assms
    by (subst frame_loop_step[where q = "[?f1]", OF _ mul_24000])
       (simp_all add: slice_from_def slice_to_def slice_index_def AUDIO_PTIME_def)
  have 3: "frame_loop 24000 480 ?st2 = Some (Normal, ?st2)"
    by (rule frame_loop_exit) simp
  show ?thesis
    by (simp add: run_send_track_def on_response_def rate_24000 spf_24000 1 2 3)
qed

lemma run_11025_880:
  assumes "length d = 880"
  shows "run_send_track (Some [])
       [[\<lparr>data = Some d, mime_type = ''audio/pcm;rate=11025''\<rparr>]] =
     Some (Normal,
       \<lparr>timestamp = 441, buffer = [],
        send_track = Some
          [\<lparr>frame_format = ''s16'', frame_layout = ''mono'', frame_samples = 220,
            frame_sample_rate = 11025, frame_plane = take 440 d,
            frame_pts = 441 / 2, frame_time_base = 1 / 11025\<rparr>,
           \<lparr>frame_format = ''s16'', frame_layout = ''mono'', frame_samples = 220,
            frame_sample_rate = 11025, frame_plane = drop 440 d,
            frame_pts = 441, frame_time_base = 1 / 11025\<rparr>],
        slept = 1 / 25\<rparr>)"
proof -
  let ?st0 = "\<lparr>timestamp = 0, buffer = d, send_track = Some [], slept = 0\<rparr>"
  let ?f1 = "\<lparr>frame_format = ''s16'', frame_layout = ''mono'', frame_samples = 220,
            frame_sample_rate = 11025, frame_plane = take 440 d,
            frame_pts = 441 / 2, frame_time_base = 1 / 11025\<rparr>"
  let ?f2 = "\<lparr>frame_format = ''s16'', frame_layout = ''mono'', frame_samples = 220,
            frame_sample_rate = 11025, frame_plane = drop 440 d,
            frame_pts = 441, frame_time_base = 1 / 11025\<rparr>"
  let ?st1 = "\<lparr>timestamp = 441 / 2, buffer = drop 440 d, send_track = Some [?f1], slept = 1 / 50\<rparr>"
  let ?st2 = "\<lparr>timestamp = 441, buffer = [], send_track = Some [?f1, ?f2], slept = 1 / 25\<rparr>"
  have 1: "frame_loop 11025 220 ?st0 = frame_loop 11025 220 ?st1"
    using assms
    by (subst frame_loop_step[where q = "[]", OF _ mul_11025])
       (simp_all add: slice_from_def slice_to_def slice_index_def AUDIO_PTIME_def)
  have 2: "frame_loop 11025 220 ?st1 = frame_loop 11025 220 ?st2"
    using assms
    by (subst frame_loop_step[where q = "[?f1]", OF _ mul_11025])
       (simp_all add: slice_from_def slice_to_def slice_index_def AUDIO_PTIME_def)
  have 3: "frame_loop 11025 220 ?st2 = Some (Normal, ?st2)"
    by (rule frame_loop_exit) simp
  show ?thesis
    by (simp add: run_send_track_def on_response_def rate_11025 spf_11025 1 2 3)
qed

section \<open>Properties of the egress loop\<close>

text \<open>
  C1. One response with mime type \<open>audio/pcm;rate=24000\<close> and 1920 bytes of payload,
  starting from timestamp 0 and an empty buffer, gives exactly two frames of 480 samples,
  the first holding the first 960 bytes and the second the rest. The counter is advanced
  before it is stamped on the frame (lines 143, 144), so the presentation timestamps are
  480 and 960.
\<close>

theorem single_response_two_frames:
  assumes "length d = 1920"
  shows "run_send_track (Some [])
       [[\<lparr>data = Some d, mime_type = ''audio/pcm;rate=24000''\<rparr>]] =
     Some (Normal,
       \<lparr>timestamp = 960, buffer = [],
        send_track = Some
          [\<lparr>frame_format = ''s16'', frame_layout = ''mono'', frame_samples = 480,
            frame_sample_rate = 24000, frame_plane = take 960 d,
            frame_pts = 480, frame_time_base = 1 / 24000\<rparr>,
           \<lparr>frame_format = ''s16'', frame_layout = ''mono'', frame_samples = 480,
            frame_sample_rate = 24000, frame_plane = drop 960 d,
            frame_pts = 960, frame_time_base = 1 / 24000\<rparr>],
        slept = 1 / 25\<rparr>)"
  using assms by (rule run_24000_1920)

theorem single_response_two_frames_witness:
  "length (replicate 1920 (0 :: byte)) = 1920 \<and>
   run_send_track (Some [])
       [[\<lparr>data = Some (replicate 1920 0), mime_type = ''audio/pcm;rate=24000''\<rparr>]] =
     Some (Normal,
       \<lparr>timestamp = 960, buffer = [],
        send_track = Some
          [\<lparr>frame_format = ''s16'', frame_layout = ''mono'', frame_samples = 480,
            frame_sample_rate = 24000, frame_plane = replicate 960 0,
            frame_pts = 480, frame_time_base = 1 / 24000\<rparr>,
           \<lparr>frame_format = ''s16'', frame_layout = ''mono'', frame_samples = 480,
            frame_sample_rate = 24000, frame_plane = replicate 960 0,
            frame_pts = 960, frame_time_base = 1 / 24000\<rparr>],
        slept = 1 / 25\<rparr>)"
proof -
  have h: "length (replicate 1920 (0 :: byte)) = 1920" by simp
  show ?thesis
    using h single_response_two_frames[OF h] by simp
qed

text \<open>The timestamps of that run are not 0 and 480.\<close>

theorem first_pts_not_zero:
  "map frame_samples (emitted (run_send_track (Some [])
       [[\<lparr>data = Some (replicate 1920 0), mime_type = ''audio/pcm;rate=24000''\<rparr>]])) = [480, 480] \<and>
   map frame_pts (emitted (run_send_track (Some [])
       [[\<lparr>data = Some (replicate 1920 0), mime_type = ''audio/pcm;rate=24000''\<rparr>]])) = [480, 960] \<and>
   map frame_pts (emitted (run_send_track (Some [])
       [[\<lparr>data = Some (replicate 1920 0), mime_type = ''audio/pcm;rate=24000''\<rparr>]])) \<noteq> [0, 480]"
proof -
  have h: "length (replicate 1920 (0 :: byte)) = 1920" by simp
  show ?thesis
    by (simp add: run_24000_1920[OF h] emitted_def)
qed

text \<open>
  C4. When every audio response declares a rate that is a positive multiple of 50 and
  the send track exists, the loop frames every sequence of responses, each frame's
  timestamp exceeds that of the frame before it (the initial counter 0 for the first) by
  exactly the frame's sample count, and the frames are appended to the queue in that
  order behind what was queued before.
\<close>

theorem pts_advance_by_sample_count:
  assumes "\<forall>t \<in> set turns. \<forall>r \<in> set t. declares_whole_frames r"
  shows "\<exists>st' fs. run_send_track (Some q) turns = Some (Normal, st') \<and>
           send_track st' = Some (q @ fs) \<and> pts_chain 0 fs"
proof -
  let ?R = "{rate. \<exists>n. samples_per_frame rate = Inr n \<and> rate = 50 * n}"
  from assms have "\<forall>t \<in> set turns. \<forall>r \<in> set t. framable r"
    by (auto intro: whole_frames_framable)
  from run_send_track_returns[OF this] obtain st'
    where run: "run_send_track (Some q) turns = Some (Normal, st')" by auto
  from assms have "\<forall>t \<in> set turns. \<forall>r \<in> set t. declares ?R r"
    by (auto intro: whole_frames_declares)
  from run_send_track_sound[OF run this] obtain fs
    where fs: "framed ?R \<lparr>timestamp = 0, buffer = [], send_track = Some q, slept = 0\<rparr>
                 (concat (map payload (concat turns))) st' fs" ..
  have "\<forall>f \<in> set fs. frame_increment f = rat_of_int (frame_samples f)"
    using fs by (auto simp: framed_def intro: whole_increment)
  moreover have "pts_steps 0 fs" using fs by (simp add: framed_def)
  ultimately have "pts_chain 0 fs" by (rule pts_steps_chain[rotated])
  moreover have "send_track st' = Some (q @ fs)" using fs by (simp add: framed_def)
  ultimately show ?thesis using run by blast
qed

theorem pts_advance_by_sample_count_witness:
  "declares_whole_frames \<lparr>data = Some (replicate 1920 0), mime_type = ''audio/pcm;rate=24000''\<rparr> \<and>
   (\<exists>st' fs. run_send_track (Some [])
        [[\<lparr>data = Some (replicate 1920 0), mime_type = ''audio/pcm;rate=24000''\<rparr>]] = Some (Normal, st') \<and>
      send_track st' = Some ([] @ fs) \<and> pts_chain 0 fs)"
proof -
  have h: "declares_whole_frames \<lparr>data = Some (replicate 1920 0), mime_type = ''audio/pcm;rate=24000''\<rparr>"
    by (simp add: declares_whole_frames_def rate_24000 spf_24000)
  then have "\<forall>t \<in> set [[\<lparr>data = Some (replicate 1920 0), mime_type = ''audio/pcm;rate=24000''\<rparr>]].
      \<forall>r \<in> set t. declares_whole_frames r" by simp
  from pts_advance_by_sample_count[OF this, of "[]"] h show ?thesis by simp
qed

text \<open>
  At 11025 Hz a frame has 220 samples while the counter advances by 220.5: the second
  frame's timestamp does not exceed the first's by the sample count.
\<close>

theorem pts_advance_counterexample:
  "map frame_samples (emitted (run_send_track (Some [])
       [[\<lparr>data = Some (replicate 880 0), mime_type = ''audio/pcm;rate=11025''\<rparr>]])) = [220, 220] \<and>
   map frame_pts (emitted (run_send_track (Some [])
       [[\<lparr>data = Some (replicate 880 0), mime_type = ''audio/pcm;rate=11025''\<rparr>]])) = [441 / 2, 441] \<and>
   \<not> pts_chain 0 (emitted (run_send_track (Some [])
       [[\<lparr>data = Some (replicate 880 0), mime_type = ''audio/pcm;rate=11025''\<rparr>]]))"
proof -
  have h: "length (replicate 880 (0 :: byte)) = 880" by simp
  show ?thesis
    by (simp add: run_11025_880[OF h] emitted_def)
qed

text \<open>
  C6. After the framing pass of an audio response, whatever came before it, the
  accumulator holds fewer bytes than one frame at that response's rate (two bytes per
  sample); and the pass is reached and ends when the send track exists and every response
  can be framed.
\<close>

theorem accumulator_below_one_frame:
  assumes d: "data r = Some d" and rate: "declared_rate (mime_type r) = Inr rate"
    and n: "samples_per_frame rate = Inr n"
  shows "(\<forall>st'. run_send_track track (turns @ [rs @ [r]]) = Some (Normal, st') \<longrightarrow>
            int (length (buffer st')) < 2 * n) \<and>
         (track \<noteq> None \<and> 0 < n \<and> (\<forall>t \<in> set (rs # turns). \<forall>r' \<in> set t. framable r') \<longrightarrow>
            (\<exists>st'. run_send_track track (turns @ [rs @ [r]]) = Some (Normal, st')))"
proof (intro conjI allI impI)
  fix st'
  assume "run_send_track track (turns @ [rs @ [r]]) = Some (Normal, st')"
  then obtain st1 where "send_turns st1 [rs @ [r]] = Some (Normal, st')"
    unfolding run_send_track_def send_turns_Normal_append by blast
  then have "on_turn st1 (rs @ [r]) = Some (Normal, st')"
    unfolding send_turns_Normal_Cons by simp
  then obtain st2 where "on_turn st2 [r] = Some (Normal, st')"
    unfolding on_turn_Normal_append by blast
  then have "on_response st2 r = Some (Normal, st')"
    unfolding on_turn_Normal_Cons by simp
  from on_response_bound[OF this d rate n] show "int (length (buffer st')) < 2 * n" .
next
  assume a: "track \<noteq> None \<and> 0 < n \<and> (\<forall>t \<in> set (rs # turns). \<forall>r' \<in> set t. framable r')"
  have "framable r" using d rate n a by (simp add: framable_def)
  with a have "\<forall>t \<in> set (turns @ [rs @ [r]]). \<forall>r' \<in> set t. framable r'" by auto
  from run_send_track_returns[OF this] a
  show "\<exists>st'. run_send_track track (turns @ [rs @ [r]]) = Some (Normal, st')" by simp
qed

theorem accumulator_below_one_frame_witness:
  "data \<lparr>data = Some (replicate 1000 0), mime_type = ''audio/pcm;rate=24000''\<rparr> = Some (replicate 1000 0) \<and>
   declared_rate ''audio/pcm;rate=24000'' = Inr 24000 \<and>
   samples_per_frame 24000 = Inr 480 \<and>
   (\<exists>st'. run_send_track (Some [])
        [[\<lparr>data = Some (replicate 1000 0), mime_type = ''audio/pcm;rate=24000''\<rparr>]] = Some (Normal, st') \<and>
      int (length (buffer st')) < 2 * 480)"
proof -
  let ?r = "\<lparr>data = Some (replicate 1000 (0 :: byte)), mime_type = ''audio/pcm;rate=24000''\<rparr>"
  have d: "data ?r = Some (replicate 1000 0)" by simp
  have rate: "declared_rate (mime_type ?r) = Inr 24000" by (simp add: rate_24000)
  from accumulator_below_one_frame[OF d rate spf_24000, of "Some []" "[]" "[]"]
  show ?thesis using rate spf_24000 by auto
qed

text \<open>
  C9. At a fixed declared rate the loop conserves bytes: the planes of the frames it has
  appended to the queue, in order, followed by the accumulator are the concatenation of
  the payloads received, and each plane has exactly two bytes per sample of a frame. The
  loop returns when a frame holds at least one sample.
\<close>

theorem egress_conserves_bytes:
  assumes fixed: "\<forall>t \<in> set turns. \<forall>r \<in> set t. data r \<noteq> None \<longrightarrow> declared_rate (mime_type r) = Inr rate"
    and n: "samples_per_frame rate = Inr n"
  shows "(\<forall>st'. run_send_track (Some q) turns = Some (Normal, st') \<longrightarrow>
            (\<exists>fs. send_track st' = Some (q @ fs) \<and>
                  concat (map frame_plane fs) @ buffer st' = concat (map payload (concat turns)) \<and>
                  (\<forall>f \<in> set fs. int (length (frame_plane f)) = 2 * n))) \<and>
         (0 < n \<longrightarrow> (\<exists>st'. run_send_track (Some q) turns = Some (Normal, st')))"
proof (intro conjI allI impI)
  fix st'
  assume run: "run_send_track (Some q) turns = Some (Normal, st')"
  have "\<forall>t \<in> set turns. \<forall>r \<in> set t. declares {rate} r"
    using fixed by (simp add: declares_def)
  from run_send_track_sound[OF run this] obtain fs
    where fs: "framed {rate} \<lparr>timestamp = 0, buffer = [], send_track = Some q, slept = 0\<rparr>
                 (concat (map payload (concat turns))) st' fs" ..
  have "\<forall>f \<in> set fs. int (length (frame_plane f)) = 2 * n"
    using fs n by (auto simp: framed_def well_framed_def)
  moreover have "send_track st' = Some (q @ fs)"
    using fs by (simp add: framed_def)
  moreover have "concat (map frame_plane fs) @ buffer st' = concat (map payload (concat turns))"
    using fs by (simp add: framed_def)
  ultimately show "\<exists>fs. send_track st' = Some (q @ fs) \<and>
                  concat (map frame_plane fs) @ buffer st' = concat (map payload (concat turns)) \<and>
                  (\<forall>f \<in> set fs. int (length (frame_plane f)) = 2 * n)"
    by blast
next
  assume "0 < n"
  with fixed n have "\<forall>t \<in> set turns. \<forall>r \<in> set t. framable r"
    by (auto simp: framable_def split: option.splits)
  from run_send_track_returns[OF this]
  show "\<exists>st'. run_send_track (Some q) turns = Some (Normal, st')" by simp
qed

theorem egress_conserves_bytes_witness:
  "declared_rate ''audio/pcm;rate=24000'' = Inr 24000 \<and>
   samples_per_frame 24000 = Inr 480 \<and>
   (\<exists>st' fs. run_send_track (Some [])
        [[\<lparr>data = Some (replicate 1000 0), mime_type = ''audio/pcm;rate=24000''\<rparr>]] = Some (Normal, st') \<and>
      send_track st' = Some ([] @ fs) \<and>
      concat (map frame_plane fs) @ buffer st' = replicate 1000 0 \<and>
      list_all (\<lambda>f. int (length (frame_plane f)) = 2 * 480) fs)"
proof -
  let ?r = "\<lparr>data = Some (replicate 1000 (0 :: byte)), mime_type = ''audio/pcm;rate=24000''\<rparr>"
  have fixed: "\<forall>t \<in> set [[?r]]. \<forall>r \<in> set t. data r \<noteq> None \<longrightarrow> declared_rate (mime_type r) = Inr 24000"
    by (simp add: rate_24000)
  from egress_conserves_bytes[OF fixed spf_24000, of "[]"]
  show ?thesis using rate_24000 spf_24000 by (auto simp: payload_def list_all_iff)
qed

section \<open>Connections\<close>

lemma await_fields:
  "pc (snd (await c self)) = pc self"
  "genai_session (snd (await c self)) = genai_session self"
  "tasks (snd (await c self)) = tasks self"
  "raises (snd (await c self)) = raises self"
  "registered (snd (await c self)) = registered self"
  by (simp_all add: await_def Let_def)

lemma handle_offer_fields:
  "pc (snd (handle_offer content self)) = Some ()"
  "genai_session (snd (handle_offer content self)) = genai_session self"
  "tasks (snd (handle_offer content self)) = tasks self @ [Run]"
  "raises (snd (handle_offer content self)) = raises self"
  "registered (snd (handle_offer content self)) = registered self"
  "handlers (snd (handle_offer content self)) = handlers self"
  by (simp_all add: handle_offer_def await_def Let_def split: prod.splits outcome.splits)

lemma handle_offer_trace:
  "\<exists>neg. trace (snd (handle_offer content self)) =
           trace self @ [NewPeerConnection, EnsureFuture] @ map Call neg \<and>
         neg \<noteq> [] \<and> prefix neg [SetRemoteDescription, CreateAnswer, SetLocalDescription]"
proof (cases "raises self SetRemoteDescription")
  case True
  then have "trace (snd (handle_offer content self)) =
      trace self @ [NewPeerConnection, EnsureFuture] @ map Call [SetRemoteDescription]"
    by (simp add: handle_offer_def await_def Let_def)
  then show ?thesis by (intro exI[of _ "[SetRemoteDescription]"]) simp
next
  case r1: False
  show ?thesis
  proof (cases "raises self CreateAnswer")
    case True
    with r1 have "trace (snd (handle_offer content self)) =
        trace self @ [NewPeerConnection, EnsureFuture] @ map Call [SetRemoteDescription, CreateAnswer]"
      by (simp add: handle_offer_def await_def Let_def)
    then show ?thesis by (intro exI[of _ "[SetRemoteDescription, CreateAnswer]"]) simp
  next
    case r2: False
    with r1 have "trace (snd (handle_offer content self)) =
        trace self @ [NewPeerConnection, EnsureFuture] @
          map Call [SetRemoteDescription, CreateAnswer, SetLocalDescription]"
      by (cases "raises self SetLocalDescription") (simp_all add: handle_offer_def await_def Let_def)
    then show ?thesis
      by (intro exI[of _ "[SetRemoteDescription, CreateAnswer, SetLocalDescription]"]) simp
  qed
qed

lemma connect_session_trace: "trace (snd (connect_session self)) = trace self @ [Call Connect]"
  by (simp add: connect_session_def await_def Let_def)

lemma close_missing:
  assumes "genai_session self = Missing" and "\<not> raises self PcClose"
  shows "fst (close self) = Raised AttributeError"
  using assms by (cases "pc self") (simp_all add: close_def await_def Let_def)

lemma close_missing_state:
  assumes "genai_session self = Missing"
  shows "genai_session (snd (close self)) = Missing" "raises (snd (close self)) = raises self"
  using assms
  by (cases "pc self"; simp add: close_def await_def Let_def)+

lemma gather_Normal: "\<forall>r \<in> set rs. fst r = Normal \<Longrightarrow> gather rs = Normal"
proof (induction rs)
  case Nil
  show ?case by simp
next
  case (Cons r rs)
  then show ?case by (cases r) simp
qed

text \<open>The live connection, written out.\<close>

lemma live_eq:
  assumes "\<not> env SetRemoteDescription" "\<not> env CreateAnswer" "\<not> env SetLocalDescription"
    and "\<not> env Connect"
  shows "live env =
     \<lparr>pc = Some (), genai_session = Bound (), recv_track = None, conn_send_track = None,
      registered = True, handlers = True, tasks = [Run],
      trace = [NewPeerConnection, EnsureFuture, Call SetRemoteDescription, Call CreateAnswer,
               Call SetLocalDescription, Call Connect],
      raises = env, local_sdp = ''answer''\<rparr>"
  using assms
  by (simp add: live_def offer_def connect_session_def register_handlers_def handle_offer_def
        await_def Let_def RTCConnection_def)

text \<open>A connection whose session was never opened stays registered at shutdown.\<close>

lemma shutdown_with_unopened_session:
  "on_shutdown [snd (offer ''offer'' (\<lambda>c. False) ''answer'')] =
     (Raised AttributeError,
      [\<lparr>pc = Some (), genai_session = Missing, recv_track = None, conn_send_track = None,
        registered = True, handlers = False, tasks = [Run],
        trace = [NewPeerConnection, EnsureFuture, Call SetRemoteDescription, Call CreateAnswer,
                 Call SetLocalDescription, Call PcClose],
        raises = (\<lambda>c. False), local_sdp = ''answer''\<rparr>])"
  by (simp add: on_shutdown_def offer_def handle_offer_def close_def await_def Let_def
        RTCConnection_def)

text \<open>
  When \<open>connect\<close> fails, \<open>_run\<close> catches the exception and calls \<open>close()\<close> itself
  (line 163); the task ends with AttributeError and the connection stays registered.
\<close>

lemma run_after_failed_connect:
  "conn_run turns (snd (offer ''offer'' (\<lambda>c. c = Connect) ''answer'')) =
     Some (Crashed AttributeError,
      \<lparr>pc = Some (), genai_session = Missing, recv_track = None, conn_send_track = None,
       registered = True, handlers = True, tasks = [Run],
       trace = [NewPeerConnection, EnsureFuture, Call SetRemoteDescription, Call CreateAnswer,
                Call SetLocalDescription, Call Connect, Call PcClose],
       raises = (\<lambda>c. c = Connect), local_sdp = ''answer''\<rparr>)"
  by (simp add: conn_run_def offer_def handle_offer_def register_handlers_def connect_session_def
        after_try_def close_def await_def Let_def RTCConnection_def)

section \<open>Properties of the connection lifecycle\<close>

text \<open>
  C2. \<open>close()\<close> on a connection whose AI session was never opened: after \<open>offer\<close>, with
  collaborators that never raise, \<open>close()\<close> closes the peer connection and then raises
  AttributeError on \<open>self.genai_session\<close>; so does a second call.
\<close>

theorem close_raises_without_session:
  "fst (close (snd (offer content (\<lambda>c. False) sdp))) = Raised AttributeError \<and>
   fst (close (snd (close (snd (offer content (\<lambda>c. False) sdp))))) = Raised AttributeError"
proof -
  let ?c = "snd (offer content (\<lambda>c. False) sdp)"
  have m: "genai_session ?c = Missing" and r: "\<not> raises ?c PcClose"
    by (simp_all add: offer_def handle_offer_fields RTCConnection_def)
  have "fst (close ?c) = Raised AttributeError"
    by (rule close_missing[OF m r])
  moreover have "fst (close (snd (close ?c))) = Raised AttributeError"
    using close_missing_state[OF m] r by (intro close_missing) simp_all
  ultimately show ?thesis by simp
qed

text \<open>
  C3. When both a peer connection and an AI session exist, \<open>close()\<close> first calls the
  close of the peer connection, and calls the close of the AI session exactly when the
  first call returned; it raises when either call raises. So a failure of the session's
  close comes after the attempt on the peer connection, and a failure of the peer
  connection's close leaves the session's close unattempted.
\<close>

theorem close_attempts_in_order:
  assumes "pc self = Some p" and "genai_session self = Bound s"
  shows "trace (snd (close self)) =
           trace self @ (if raises self PcClose then [Call PcClose]
                         else [Call PcClose, Call SessionClose]) \<and>
         fst (close self) =
           (if raises self PcClose \<or> raises self SessionClose then Raised ExternalError else Normal)"
  using assms by (simp add: close_def await_def Let_def)

theorem close_attempts_in_order_witness:
  "pc (live (\<lambda>c. c = SessionClose)) = Some () \<and>
   genai_session (live (\<lambda>c. c = SessionClose)) = Bound () \<and>
   trace (snd (close (live (\<lambda>c. c = SessionClose)))) =
     [NewPeerConnection, EnsureFuture, Call SetRemoteDescription, Call CreateAnswer,
      Call SetLocalDescription, Call Connect, Call PcClose, Call SessionClose] \<and>
   fst (close (live (\<lambda>c. c = SessionClose))) = Raised ExternalError"
proof -
  let ?c = "live (\<lambda>c. c = SessionClose)"
  have eq: "?c = \<lparr>pc = Some (), genai_session = Bound (), recv_track = None, conn_send_track = None,
      registered = True, handlers = True, tasks = [Run],
      trace = [NewPeerConnection, EnsureFuture, Call SetRemoteDescription, Call CreateAnswer,
               Call SetLocalDescription, Call Connect],
      raises = (\<lambda>c. c = SessionClose), local_sdp = ''answer''\<rparr>"
    by (rule live_eq) simp_all
  have p: "pc ?c = Some ()" and g: "genai_session ?c = Bound ()"
    by (simp_all add: eq)
  from close_attempts_in_order[OF p g] p g show ?thesis
    by (simp add: eq)
qed

text \<open>
  With a peer connection whose close raises, the close of the AI session is never
  attempted.
\<close>

theorem close_skips_session:
  "pc (live (\<lambda>c. c = PcClose)) = Some () \<and>
   genai_session (live (\<lambda>c. c = PcClose)) = Bound () \<and>
   close (live (\<lambda>c. c = PcClose)) =
     (Raised ExternalError,
      \<lparr>pc = Some (), genai_session = Bound (), recv_track = None, conn_send_track = None,
       registered = True, handlers = True, tasks = [Run],
       trace = [NewPeerConnection, EnsureFuture, Call SetRemoteDescription, Call CreateAnswer,
                Call SetLocalDescription, Call Connect, Call PcClose],
       raises = (\<lambda>c. c = PcClose), local_sdp = ''answer''\<rparr>) \<and>
   Call SessionClose \<notin> set (trace (snd (close (live (\<lambda>c. c = PcClose)))))"
proof -
  have eq: "live (\<lambda>c. c = PcClose) =
     \<lparr>pc = Some (), genai_session = Bound (), recv_track = None, conn_send_track = None,
      registered = True, handlers = True, tasks = [Run],
      trace = [NewPeerConnection, EnsureFuture, Call SetRemoteDescription, Call CreateAnswer,
               Call SetLocalDescription, Call Connect],
      raises = (\<lambda>c. c = PcClose), local_sdp = ''answer''\<rparr>"
    by (rule live_eq) simp_all
  show ?thesis
    by (simp add: eq close_def await_def Let_def)
qed

text \<open>
  C5. For every call to \<open>handle_offer\<close>, whatever the negotiation does, \<open>_run\<close> is
  scheduled before the first negotiation call is made and stays scheduled; when it runs
  it attaches its handlers and calls \<open>connect\<close> without regard to the negotiation.
\<close>

theorem session_opened_whatever_negotiation:
  "tasks (snd (handle_offer content self)) = tasks self @ [Run] \<and>
   (\<exists>neg. trace (snd (handle_offer content self)) =
            trace self @ [NewPeerConnection, EnsureFuture] @ map Call neg \<and>
          neg \<noteq> [] \<and> prefix neg [SetRemoteDescription, CreateAnswer, SetLocalDescription]) \<and>
   fst (register_handlers (snd (handle_offer content self))) = Normal \<and>
   trace (snd (connect_session (snd (register_handlers (snd (handle_offer content self)))))) =
     trace (snd (handle_offer content self)) @ [Call Connect]"
  using handle_offer_trace[of content self]
  by (simp add: handle_offer_fields connect_session_trace register_handlers_def)

text \<open>
  A negotiation that fails at \<open>setRemoteDescription\<close>: \<open>handle_offer\<close> raises, and the
  scheduled \<open>_run\<close> opens the AI session all the same.
\<close>

theorem session_opened_after_failed_negotiation:
  "offer ''offer'' (\<lambda>c. c = SetRemoteDescription) ''answer'' =
     (Inl ExternalError,
      \<lparr>pc = Some (), genai_session = Missing, recv_track = None, conn_send_track = None,
       registered = True, handlers = False, tasks = [Run],
       trace = [NewPeerConnection, EnsureFuture, Call SetRemoteDescription],
       raises = (\<lambda>c. c = SetRemoteDescription), local_sdp = ''answer''\<rparr>) \<and>
   conn_run [] (snd (offer ''offer'' (\<lambda>c. c = SetRemoteDescription) ''answer'')) =
     Some (Suspended,
      \<lparr>pc = Some (), genai_session = Bound (), recv_track = None, conn_send_track = None,
       registered = True, handlers = True, tasks = [Run],
       trace = [NewPeerConnection, EnsureFuture, Call SetRemoteDescription, Call Connect],
       raises = (\<lambda>c. c = SetRemoteDescription), local_sdp = ''answer''\<rparr>)"
  by (simp add: offer_def handle_offer_def await_def Let_def RTCConnection_def conn_run_def
        register_handlers_def connect_session_def run_send_track_def)

text \<open>
  C7. When \<open>close()\<close> of every registered connection returns, \<open>on_shutdown\<close> has
  called \<open>close()\<close> on each of them and leaves the registry empty.
\<close>

theorem shutdown_empties_registry:
  assumes "\<forall>conn \<in> set objects. registered conn \<longrightarrow> fst (close conn) = Normal"
  shows "on_shutdown objects =
           (Normal, map (\<lambda>conn. if registered conn then (snd (close conn))\<lparr>registered := False\<rparr>
                                else conn) objects) \<and>
         connections (snd (on_shutdown objects)) = []"
proof -
  let ?coros = "map (\<lambda>conn. if registered conn then close conn else (Normal, conn)) objects"
  have "\<forall>r \<in> set ?coros. fst r = Normal" using assms by auto
  then have g: "gather ?coros = Normal" by (rule gather_Normal)
  have 1: "on_shutdown objects =
      (Normal, map (\<lambda>conn. if registered conn then (snd (close conn))\<lparr>registered := False\<rparr>
                                else conn) objects)"
    using g by (auto simp: on_shutdown_def Let_def split_beta)
  have "connections (snd (on_shutdown objects)) = []"
    unfolding 1 by (auto simp: connections_def filter_empty_conv)
  with 1 show ?thesis by simp
qed

theorem shutdown_empties_registry_witness:
  "length (connections [live (\<lambda>c. False), live (\<lambda>c. False), live (\<lambda>c. False)]) = 3 \<and>
   fst (close (live (\<lambda>c. False))) = Normal \<and>
   fst (on_shutdown [live (\<lambda>c. False), live (\<lambda>c. False), live (\<lambda>c. False)]) = Normal \<and>
   connections (snd (on_shutdown [live (\<lambda>c. False), live (\<lambda>c. False), live (\<lambda>c. False)])) = []"
proof -
  have eq: "live (\<lambda>c. False) =
     \<lparr>pc = Some (), genai_session = Bound (), recv_track = None, conn_send_track = None,
      registered = True, handlers = True, tasks = [Run],
      trace = [NewPeerConnection, EnsureFuture, Call SetRemoteDescription, Call CreateAnswer,
               Call SetLocalDescription, Call Connect],
      raises = (\<lambda>c. False), local_sdp = ''answer''\<rparr>"
    by (rule live_eq) simp_all
  have c: "fst (close (live (\<lambda>c. False))) = Normal"
    by (simp add: eq close_def await_def Let_def)
  then have "\<forall>conn \<in> set [live (\<lambda>c. False), live (\<lambda>c. False), live (\<lambda>c. False)].
      registered conn \<longrightarrow> fst (close conn) = Normal"
    by simp
  from shutdown_empties_registry[OF this] c show ?thesis
    by (simp add: connections_def eq)
qed

text \<open>
  One registered connection whose peer connection raises on close: \<open>on_shutdown\<close> raises
  and the connection is still registered.
\<close>

theorem shutdown_keeps_registry:
  "on_shutdown [live (\<lambda>c. c = PcClose)] =
     (Raised ExternalError,
      [\<lparr>pc = Some (), genai_session = Bound (), recv_track = None, conn_send_track = None,
        registered = True, handlers = True, tasks = [Run],
        trace = [NewPeerConnection, EnsureFuture, Call SetRemoteDescription, Call CreateAnswer,
                 Call SetLocalDescription, Call Connect, Call PcClose],
        raises = (\<lambda>c. c = PcClose), local_sdp = ''answer''\<rparr>]) \<and>
   length (connections (snd (on_shutdown [live (\<lambda>c. c = PcClose)]))) = 1"
proof -
  have eq: "live (\<lambda>c. c = PcClose) =
     \<lparr>pc = Some (), genai_session = Bound (), recv_track = None, conn_send_track = None,
      registered = True, handlers = True, tasks = [Run],
      trace = [NewPeerConnection, EnsureFuture, Call SetRemoteDescription, Call CreateAnswer,
               Call SetLocalDescription, Call Connect],
      raises = (\<lambda>c. c = PcClose), local_sdp = ''answer''\<rparr>"
    by (rule live_eq) simp_all
  show ?thesis
    by (simp add: eq on_shutdown_def connections_def close_def await_def Let_def)
qed

text \<open>
  C10. While \<open>genai_session\<close> has not been assigned, the guard of the data-channel
  handler \<open>on_message\<close> raises AttributeError; the message is not dropped silently, and
  nothing else happens.
\<close>

theorem on_message_before_session_raises:
  assumes "genai_session self = Missing"
  shows "on_message message self = (Raised AttributeError, self)"
  using assms by (simp add: on_message_def)

theorem on_message_before_session_raises_witness:
  "genai_session (snd (register_handlers (snd (offer ''offer'' (\<lambda>c. False) ''answer'')))) = Missing \<and>
   handlers (snd (register_handlers (snd (offer ''offer'' (\<lambda>c. False) ''answer'')))) \<and>
   fst (on_message ''hello''
      (snd (register_handlers (snd (offer ''offer'' (\<lambda>c. False) ''answer''))))) =
     Raised AttributeError"
proof -
  let ?c = "snd (register_handlers (snd (offer ''offer'' (\<lambda>c. False) ''answer'')))"
  have m: "genai_session ?c = Missing"
    by (simp add: register_handlers_def offer_def handle_offer_fields RTCConnection_def)
  have h: "handlers ?c"
    by (simp add: register_handlers_def offer_def handle_offer_fields)
  from on_message_before_session_raises[OF m, of "''hello''"] m h show ?thesis by simp
qed

end
